theory Spec2Isabelle
  imports Complex_Main
begin

section \<open>The curve editor widget of the day time editor\<close>

text \<open>
  A shallow embedding of \<^verbatim>\<open>Toolkit/DayTimeEditor/CurveWidget.py\<close>. Python integers
  (pixel positions, widget sizes, indices) are \<open>int\<close> and \<open>nat\<close>; Python floats are
  exact \<open>real\<close> numbers, with the one fault float arithmetic has here, division by
  zero, written out as an error value. The widget object is a record that every handler
  takes and returns; the injected change handler and the redraw request are counters of
  how often they were called.
\<close>

datatype error = ZeroDivisionError | IndexError | InvalidControlPointIndex

type_synonym 'a result = "error + 'a"

definition float_div :: "real \<Rightarrow> real \<Rightarrow> real result" where
  "float_div a b = (if b = 0 then Inl ZeroDivisionError else Inr (a / b))"

definition py_int :: "real \<Rightarrow> int" where
  \<comment> \<open>Python's \<^verbatim>\<open>int(v)\<close> on a float: truncation towards zero.\<close>
  "py_int v = (if 0 \<le> v then \<lfloor>v\<rfloor> else \<lceil>v\<rceil>)"

fun map_result :: "('a \<Rightarrow> 'b result) \<Rightarrow> 'a list \<Rightarrow> 'b list result" where
  "map_result f [] = Inr []"
| "map_result f (x # xs) =
     (case f x of Inl e \<Rightarrow> Inl e
      | Inr y \<Rightarrow> (case map_result f xs of Inl e \<Rightarrow> Inl e | Inr ys \<Rightarrow> Inr (y # ys)))"

subsection \<open>The curve\<close>

text \<open>
  Modelled from the spec: the class \<^verbatim>\<open>Curve\<close> (\<^verbatim>\<open>Code.DayTime.Curve\<close>) is imported by the
  widget and is not among the sources. The spec's section 4.1 gives its operations: the
  control points are kept in insertion order; \<^verbatim>\<open>appendPoint\<close> adds a point at the end and
  returns its index; \<^verbatim>\<open>setPointValue\<close> overwrites the point at an index and
  \<^verbatim>\<open>removePoint\<close> removes it, both failing with "Invalid control point index" out of
  bounds; \<^verbatim>\<open>rebuild\<close> refreshes a cache derived from the points and leaves them as they
  are.
\<close>

record curve =
  cv_points :: "(real \<times> real) list"
  color :: "int \<times> int \<times> int"

definition get_cv_points :: "curve \<Rightarrow> (real \<times> real) list" where
  "get_cv_points c = cv_points c"

definition get_color :: "curve \<Rightarrow> int \<times> int \<times> int" where
  "get_color c = color c"

definition append_cv :: "curve \<Rightarrow> real \<Rightarrow> real \<Rightarrow> curve \<times> nat" where
  "append_cv c x y = (c\<lparr>cv_points := cv_points c @ [(x, y)]\<rparr>, length (cv_points c))"

definition set_cv_value :: "curve \<Rightarrow> nat \<Rightarrow> real \<Rightarrow> real \<Rightarrow> curve result" where
  "set_cv_value c i x y =
     (if i < length (cv_points c) then Inr (c\<lparr>cv_points := (cv_points c)[i := (x, y)]\<rparr>)
      else Inl InvalidControlPointIndex)"

definition remove_cv :: "curve \<Rightarrow> nat \<Rightarrow> curve result" where
  "remove_cv c i =
     (if i < length (cv_points c)
      then Inr (c\<lparr>cv_points := take i (cv_points c) @ drop (Suc i) (cv_points c)\<rparr>)
      else Inl InvalidControlPointIndex)"

definition build_curve :: "curve \<Rightarrow> curve" where
  "build_curve c = c"

text \<open>
  Modelled from the spec: \<^verbatim>\<open>Curve.get_value\<close>, the spec's \<^verbatim>\<open>sample\<close>. The spec fixes the
  value for no point (0) and for one point (its y), asks for an interpolation through the
  points in ascending x (ties in insertion order) and names piecewise linear interpolation
  as an acceptable basis; the result is clamped to [0,1]. The handlers below take the
  sampling function as their parameter \<open>gv\<close>, so every theorem about them holds for any
  interpolation; this one is the sampler of the concrete runs.
\<close>

fun linear_through :: "(real \<times> real) list \<Rightarrow> real \<Rightarrow> real" where
  "linear_through [] x = 0"
| "linear_through [(x0, y0)] x = y0"
| "linear_through ((x0, y0) # (x1, y1) # ps) x =
     (if x \<le> x0 then y0
      else if x < x1 then y0 + (y1 - y0) * (x - x0) / (x1 - x0)
      else linear_through ((x1, y1) # ps) x)"

definition get_value :: "curve \<Rightarrow> real \<Rightarrow> real" where
  "get_value c x =
     max 0 (min 1 (linear_through (sort_key fst (cv_points c)) (max 0 (min 1 x))))"

subsection \<open>The widget state\<close>

text \<open>
  \<open>width\<close> and \<open>height\<close> are what the host's \<^verbatim>\<open>self.width()\<close> and \<^verbatim>\<open>self.height()\<close>
  return. \<open>changes\<close> counts the calls of \<^verbatim>\<open>self._change_handler()\<close>, \<open>updates\<close> those of
  \<^verbatim>\<open>self.update()\<close>. The render constants are set once by the constructor. The
  displayed curves are a list of values: the widget is modelled for a curve list whose
  entries are distinct objects, so that a change of one curve is a change at one index.
\<close>

record widget =
  curves :: "curve list"
  drag_point :: "(nat \<times> nat \<times> (real \<times> real)) option"
  selected_point :: "(nat \<times> nat) option"
  width :: int
  height :: int
  changes :: nat
  updates :: nat

definition cv_point_size :: int where "cv_point_size = 3"
definition legend_border :: int where "legend_border = 52"
definition bar_h :: int where "bar_h = 30"

definition get_y_value_for :: "widget \<Rightarrow> real \<Rightarrow> real" where
  "get_y_value_for w local_value =
     max 0 (min 1 (1 - local_value)) * real_of_int (height w - legend_border - bar_h)
       + real_of_int bar_h"

definition get_x_value_for :: "widget \<Rightarrow> real \<Rightarrow> real" where
  "get_x_value_for w local_value =
     max 0 (min 1 local_value) * real_of_int (width w - legend_border)"

definition set_curves :: "widget \<Rightarrow> curve list \<Rightarrow> widget" where
  "set_curves w cs =
     w\<lparr>selected_point := None, drag_point := None, curves := cs, updates := updates w + 1\<rparr>"

subsection \<open>The press handler\<close>

text \<open>
  The inner loop of \<^verbatim>\<open>mousePressEvent\<close> over \<^verbatim>\<open>enumerate(curve.get_cv_points())\<close>: every
  control point inside the tolerance square overwrites the drag point and the selection.
\<close>

fun scan_points :: "widget \<Rightarrow> nat \<Rightarrow> int \<Rightarrow> int \<Rightarrow> nat \<Rightarrow> (real \<times> real) list \<Rightarrow> widget" where
  "scan_points w index mouse_x mouse_y cv_index [] = w"
| "scan_points w index mouse_x mouse_y cv_index ((x, y) # ps) =
     (let point_x = get_x_value_for w x;
          point_y = get_y_value_for w y - real_of_int bar_h;
          w' = (if \<bar>point_x - real_of_int mouse_x\<bar> < real_of_int (cv_point_size + 6)
                then if \<bar>point_y - real_of_int mouse_y\<bar> < real_of_int (cv_point_size + 6)
                     then (let drag_x_offset = point_x - real_of_int mouse_x;
                               drag_y_offset = point_y - real_of_int mouse_y
                           in w\<lparr>drag_point := Some (index, cv_index, (drag_x_offset, drag_y_offset)),
                                selected_point := Some (index, cv_index)\<rparr>)
                     else w
                else w)
      in scan_points w' index mouse_x mouse_y (Suc cv_index) ps)"

text \<open>
  The second half of the loop body: a press inside the bounds and near the curve's line
  appends a control point, if nothing is selected yet.
\<close>

definition click_curve ::
  "(curve \<Rightarrow> real \<Rightarrow> real) \<Rightarrow> widget \<Rightarrow> int \<Rightarrow> int \<Rightarrow> nat \<Rightarrow> curve \<Rightarrow> widget result" where
  "click_curve gv w mouse_x mouse_y index c =
     (if 0 < mouse_x \<and> mouse_x < width w - legend_border then
        if 0 < mouse_y \<and> mouse_y < height w - legend_border then
          (case float_div (real_of_int mouse_x) (real_of_int (width w - legend_border)) of
             Inl e \<Rightarrow> Inl e
           | Inr mpos_relx \<Rightarrow>
               (let curve_py = gv c mpos_relx;
                    curve_offy = get_y_value_for w curve_py - real_of_int bar_h
                in if \<bar>curve_offy - real_of_int mouse_y\<bar> < 8 \<and> selected_point w = None then
                     (case append_cv c mpos_relx curve_py of
                        (c', cv_index) \<Rightarrow>
                          Inr (w\<lparr>curves := (curves w)[index := c'],
                                 selected_point := Some (index, cv_index),
                                 drag_point := Some (index, cv_index, (0, 0)),
                                 changes := changes w + 1\<rparr>))
                   else Inr w))
        else Inr w
      else Inr w)"

text \<open>The outer loop over \<^verbatim>\<open>enumerate(self._curves)\<close>.\<close>

fun press_loop ::
  "(curve \<Rightarrow> real \<Rightarrow> real) \<Rightarrow> widget \<Rightarrow> int \<Rightarrow> int \<Rightarrow> nat \<Rightarrow> curve list \<Rightarrow> widget result" where
  "press_loop gv w mouse_x mouse_y index [] = Inr w"
| "press_loop gv w mouse_x mouse_y index (c # cs) =
     (case click_curve gv (scan_points w index mouse_x mouse_y 0 (get_cv_points c))
             mouse_x mouse_y index c of
        Inl e \<Rightarrow> Inl e
      | Inr w' \<Rightarrow> press_loop gv w' mouse_x mouse_y (Suc index) cs)"

definition mousePressEvent ::
  "(curve \<Rightarrow> real \<Rightarrow> real) \<Rightarrow> widget \<Rightarrow> int \<Rightarrow> int \<Rightarrow> widget result" where
  "mousePressEvent gv w pos_x pos_y =
     (let w0 = w\<lparr>drag_point := None, selected_point := None\<rparr>;
          mouse_x = pos_x - legend_border;
          mouse_y = pos_y - bar_h
      in case press_loop gv w0 mouse_x mouse_y 0 (curves w0) of
           Inl e \<Rightarrow> Inl e
         | Inr w' \<Rightarrow> Inr (w'\<lparr>updates := updates w' + 1\<rparr>))"

subsection \<open>Release, move and delete\<close>

definition mouseReleaseEvent :: "widget \<Rightarrow> widget" where
  "mouseReleaseEvent w = w\<lparr>drag_point := None\<rparr>"

definition mouseMoveEvent :: "widget \<Rightarrow> int \<Rightarrow> int \<Rightarrow> widget result" where
  "mouseMoveEvent w pos_x pos_y =
     (if length (curves w) < 1 then Inr w
      else case drag_point w of
        None \<Rightarrow> Inr w
      | Some (ci, pti, (off_x, off_y)) \<Rightarrow>
          (let mouse_x = real_of_int pos_x - off_x - real_of_int legend_border;
               mouse_y = real_of_int pos_y - off_y - real_of_int bar_h
           in case float_div mouse_x (real_of_int (width w - legend_border)) of
                Inl e \<Rightarrow> Inl e
              | Inr qx \<Rightarrow>
                  (let local_x = max 0 (min 1 qx)
                   in case float_div mouse_y (real_of_int (height w - legend_border - bar_h)) of
                        Inl e \<Rightarrow> Inl e
                      | Inr qy \<Rightarrow>
                          (let local_y = 1 - max 0 (min 1 qy)
                           in if length (curves w) \<le> ci then Inl IndexError
                              else case set_cv_value (curves w ! ci) pti local_x local_y of
                                     Inl e \<Rightarrow> Inl e
                                   | Inr c' \<Rightarrow>
                                       Inr (w\<lparr>curves := (curves w)[ci := build_curve c'],
                                              updates := updates w + 1,
                                              changes := changes w + 1\<rparr>)))))"

definition delete_current_point :: "widget \<Rightarrow> widget result" where
  "delete_current_point w =
     (case selected_point w of
        None \<Rightarrow> Inr w
      | Some (ci, pti) \<Rightarrow>
          if length (curves w) \<le> ci then Inl IndexError
          else case remove_cv (curves w ! ci) pti of
                 Inl e \<Rightarrow> Inl e
               | Inr c' \<Rightarrow>
                   Inr (w\<lparr>curves := (curves w)[ci := c'],
                          selected_point := None,
                          drag_point := None,
                          updates := updates w + 1,
                          changes := changes w + 1\<rparr>))"

datatype key = Key_Delete | Key_Other

fun keyPressEvent :: "widget \<Rightarrow> key \<Rightarrow> widget result" where
  "keyPressEvent w Key_Delete = delete_current_point w"
| "keyPressEvent w Key_Other = Inr w"

subsection \<open>Drawing\<close>

text \<open>
  \<^verbatim>\<open>_draw\<close> issues painter calls to the host. The model keeps what the method computes
  for them and every place where it can fault: the values handed to the unit processor for
  the vertical labels, the height of every curve in every pixel column, and the pen colour
  of every column of the preview bar.
\<close>

record drawn =
  label_values :: "real list"
  polylines :: "real list list"
  bar_pens :: "(int \<times> int \<times> int) list"

definition py_index :: "'a list \<Rightarrow> nat \<Rightarrow> 'a result" where
  "py_index xs i = (if i < length xs then Inr (xs ! i) else Inl IndexError)"

definition channel :: "real \<Rightarrow> int" where
  \<comment> \<open>\<^verbatim>\<open>max(0, min(255, int(v * 255.0)))\<close>\<close>
  "channel v = max 0 (min 255 (py_int (v * 255)))"

definition draw_curve_line ::
  "(curve \<Rightarrow> real \<Rightarrow> real) \<Rightarrow> widget \<Rightarrow> int \<Rightarrow> curve \<Rightarrow> real list result" where
  "draw_curve_line gv w canvas_width c =
     map_result
       (\<lambda>i. case float_div (real i) (real_of_int canvas_width - 1) of
               Inl e \<Rightarrow> Inl e
             | Inr rel_offset \<Rightarrow> Inr (get_y_value_for w (gv c rel_offset)))
       [0..<nat canvas_width]"

definition bar_pen ::
  "(curve \<Rightarrow> real \<Rightarrow> real) \<Rightarrow> widget \<Rightarrow> int \<Rightarrow> nat \<Rightarrow> (int \<times> int \<times> int) result" where
  "bar_pen gv w canvas_width i =
     (case float_div (real i) (real_of_int canvas_width) of
        Inl e \<Rightarrow> Inl e
      | Inr relv \<Rightarrow>
          if length (curves w) = 1 then
            (case py_index (curves w) 0 of
               Inl e \<Rightarrow> Inl e
             | Inr bar_curve \<Rightarrow> (let val = channel (gv bar_curve relv) in Inr (val, val, val)))
          else
            (let bar_curve = take 3 (curves w)
             in case py_index bar_curve 0 of
                  Inl e \<Rightarrow> Inl e
                | Inr c0 \<Rightarrow>
                    (let r = channel (gv c0 relv)
                     in case py_index bar_curve 1 of
                          Inl e \<Rightarrow> Inl e
                        | Inr c1 \<Rightarrow>
                            (let g = channel (gv c1 relv)
                             in case py_index bar_curve 2 of
                                  Inl e \<Rightarrow> Inl e
                                | Inr c2 \<Rightarrow>
                                    (let b = channel (gv c2 relv) in Inr (r, g, b))))))"

definition draw :: "(curve \<Rightarrow> real \<Rightarrow> real) \<Rightarrow> widget \<Rightarrow> drawn result" where
  "draw gv w =
     (let canvas_width = width w - legend_border;
          canvas_height = height w - legend_border - bar_h;
          line_spacing_y = real_of_int (height w - legend_border - bar_h) / 20
      in case float_div (real_of_int canvas_height) line_spacing_y of
           Inl e \<Rightarrow> Inl e
         | Inr q \<Rightarrow>
             (let num_horiz_lines = \<lceil>q\<rceil> + 1
              in case map_result (\<lambda>i. float_div (real i) (real_of_int (num_horiz_lines - 1)))
                        [0..<nat num_horiz_lines] of
                   Inl e \<Rightarrow> Inl e
                 | Inr labels \<Rightarrow>
                     (case map_result (draw_curve_line gv w canvas_width) (curves w) of
                        Inl e \<Rightarrow> Inl e
                      | Inr lines \<Rightarrow>
                          if length (curves w) = 0 then
                            Inr \<lparr>label_values = labels, polylines = lines, bar_pens = []\<rparr>
                          else
                            (case map_result (bar_pen gv w canvas_width)
                                    [0..<nat (canvas_width - 1)] of
                               Inl e \<Rightarrow> Inl e
                             | Inr pens \<Rightarrow>
                                 Inr \<lparr>label_values = labels, polylines = lines,
                                      bar_pens = pens\<rparr>))))"

subsection \<open>Widgets of the concrete runs\<close>

text \<open>
  The constructor's state for a canvas of a given size, and widgets showing given curves,
  set up through \<open>set_curves\<close> as a caller does.
\<close>

definition curve_of :: "(real \<times> real) list \<Rightarrow> curve" where
  "curve_of ps = \<lparr>cv_points = ps, color = (0, 0, 0)\<rparr>"

definition init_widget :: "int \<Rightarrow> int \<Rightarrow> widget" where
  "init_widget wd ht =
     \<lparr>curves = [], drag_point = None, selected_point = None, width = wd, height = ht,
      changes = 0, updates = 0\<rparr>"

definition single_point_widget :: widget where
  "single_point_widget = set_curves (init_widget 400 300) [curve_of [(1 / 2, 1 / 2)]]"

definition grabbed_widget :: widget where
  "grabbed_widget =
     single_point_widget\<lparr>drag_point := Some (0, 0, (0, 0)), selected_point := Some (0, 0)\<rparr>"

definition two_point_widget :: widget where
  "two_point_widget =
     set_curves (init_widget 400 300) [curve_of [(1 / 2, 1 / 2), (51 / 100, 1 / 2)]]"

definition two_line_widget :: widget where
  "two_line_widget =
     set_curves (init_widget 400 300)
       [curve_of [(1 / 10, 1 / 2)], curve_of [(1 / 10, 1 / 2)]]"

definition three_line_widget :: widget where
  "three_line_widget =
     set_curves (init_widget 56 300) [curve_of [(0, 1)], curve_of [(0, 0)], curve_of [(0, 0)]]"


definition narrow_widget :: widget where
  "narrow_widget = set_curves (init_widget 52 300) [curve_of [(1 / 2, 1 / 2)]]"

definition flat_widget :: widget where
  "flat_widget = set_curves (init_widget 400 82) [curve_of [(1 / 2, 1 / 2)]]"

definition two_line_narrow_widget :: widget where
  "two_line_narrow_widget =
     set_curves (init_widget 52 300)
       [curve_of [(1 / 10, 1 / 2)], curve_of [(1 / 10, 1 / 2)]]"

subsection \<open>Notions used in the statements\<close>

text \<open>
  The two tests of the press handler as predicates: a control point is hit when the pointer
  is inside its tolerance square; a curve is near when the pointer is less than 8 pixels
  above or below the curve's sample in the pointer's column. \<open>in_bounds\<close> is the handler's
  own bounds test.
\<close>

definition hit :: "widget \<Rightarrow> int \<Rightarrow> int \<Rightarrow> real \<times> real \<Rightarrow> bool" where
  "hit w mouse_x mouse_y p \<longleftrightarrow>
     \<bar>get_x_value_for w (fst p) - real_of_int mouse_x\<bar> < real_of_int (cv_point_size + 6)
     \<and> \<bar>get_y_value_for w (snd p) - real_of_int bar_h - real_of_int mouse_y\<bar>
           < real_of_int (cv_point_size + 6)"

definition in_bounds :: "widget \<Rightarrow> int \<Rightarrow> int \<Rightarrow> bool" where
  "in_bounds w mouse_x mouse_y \<longleftrightarrow>
     0 < mouse_x \<and> mouse_x < width w - legend_border
     \<and> 0 < mouse_y \<and> mouse_y < height w - legend_border"


definition rel_x :: "widget \<Rightarrow> int \<Rightarrow> real" where
  "rel_x w mouse_x = real_of_int mouse_x / real_of_int (width w - legend_border)"

definition near_curve ::
  "(curve \<Rightarrow> real \<Rightarrow> real) \<Rightarrow> widget \<Rightarrow> int \<Rightarrow> int \<Rightarrow> curve \<Rightarrow> bool" where
  "near_curve gv w mouse_x mouse_y c \<longleftrightarrow>
     \<bar>get_y_value_for w (gv c (rel_x w mouse_x)) - real_of_int bar_h - real_of_int mouse_y\<bar> < 8"

text \<open>
  The control points that are hit, as triples of curve index, point index and point, in
  the order in which the press handler tests them; and the state a hit leaves behind.
\<close>

definition curve_hits ::
  "widget \<Rightarrow> int \<Rightarrow> int \<Rightarrow> nat \<Rightarrow> nat \<Rightarrow> (real \<times> real) list \<Rightarrow> (nat \<times> nat \<times> real \<times> real) list" where
  "curve_hits w mouse_x mouse_y index cv_index ps =
     map (\<lambda>(k, p). (index, k, p))
       (filter (\<lambda>(k, p). hit w mouse_x mouse_y p) (enumerate cv_index ps))"

fun all_hits ::
  "widget \<Rightarrow> int \<Rightarrow> int \<Rightarrow> nat \<Rightarrow> curve list \<Rightarrow> (nat \<times> nat \<times> real \<times> real) list" where
  "all_hits w mouse_x mouse_y index [] = []"
| "all_hits w mouse_x mouse_y index (c # cs) =
     curve_hits w mouse_x mouse_y index 0 (cv_points c)
       @ all_hits w mouse_x mouse_y (Suc index) cs"

definition grab :: "widget \<Rightarrow> int \<Rightarrow> int \<Rightarrow> nat \<times> nat \<times> real \<times> real \<Rightarrow> widget" where
  "grab w mouse_x mouse_y h =
     (case h of (i, k, x, y) \<Rightarrow>
        w\<lparr>drag_point :=
            Some (i, k, (get_x_value_for w x - real_of_int mouse_x,
                         get_y_value_for w y - real_of_int bar_h - real_of_int mouse_y)),
          selected_point := Some (i, k)\<rparr>)"

definition total_points :: "widget \<Rightarrow> nat" where
  "total_points w = sum_list (map (\<lambda>c. length (cv_points c)) (curves w))"

text \<open>
  The state an insertion into curve \<open>c\<close> at index \<open>i\<close> leaves behind, and the body of the
  press handler's loop as one step on the state.
\<close>

definition spawn ::
  "(curve \<Rightarrow> real \<Rightarrow> real) \<Rightarrow> widget \<Rightarrow> int \<Rightarrow> nat \<Rightarrow> curve \<Rightarrow> widget" where
  "spawn gv w mouse_x i c =
     w\<lparr>curves := (curves w)[i := c\<lparr>cv_points :=
                     cv_points c @ [(rel_x w mouse_x, gv c (rel_x w mouse_x))]\<rparr>],
       selected_point := Some (i, length (cv_points c)),
       drag_point := Some (i, length (cv_points c), (0, 0)),
       changes := changes w + 1\<rparr>"

definition press_step ::
  "(curve \<Rightarrow> real \<Rightarrow> real) \<Rightarrow> widget \<Rightarrow> int \<Rightarrow> int \<Rightarrow> nat \<Rightarrow> curve \<Rightarrow> widget" where
  "press_step gv w mouse_x mouse_y i c =
     (let hs = curve_hits w mouse_x mouse_y i 0 (cv_points c)
      in if hs \<noteq> [] then grab w mouse_x mouse_y (last hs)
         else if in_bounds w mouse_x mouse_y \<and> near_curve gv w mouse_x mouse_y c
                 \<and> selected_point w = None
         then spawn gv w mouse_x i c
         else w)"

section \<open>Properties\<close>

lemmas run_defs =
  mousePressEvent_def mouseMoveEvent_def click_curve_def float_div_def
  get_cv_points_def get_x_value_for_def get_y_value_for_def
  legend_border_def bar_h_def cv_point_size_def
  get_value_def append_cv_def set_cv_value_def build_curve_def
  set_curves_def init_widget_def curve_of_def Let_def

lemmas pred_defs = hit_def in_bounds_def near_curve_def rel_x_def curve_hits_def
  enumerate_simps total_points_def

subsection \<open>The press loop\<close>

lemma hit_geom:
  "width w' = width w \<Longrightarrow> height w' = height w \<Longrightarrow> hit w' = hit w"
  by (simp add: hit_def fun_eq_iff get_x_value_for_def get_y_value_for_def)

lemma curve_hits_geom:
  assumes "width w' = width w" and "height w' = height w"
  shows "curve_hits w' = curve_hits w"
  unfolding curve_hits_def fun_eq_iff hit_geom [OF assms] by simp

lemma all_hits_geom:
  assumes "width w' = width w" and "height w' = height w"
  shows "all_hits w' mx my i cs = all_hits w mx my i cs"
  by (induction cs arbitrary: i) (simp_all add: curve_hits_geom [OF assms])

lemma in_bounds_geom:
  "width w' = width w \<Longrightarrow> height w' = height w \<Longrightarrow> in_bounds w' = in_bounds w"
  by (simp add: in_bounds_def fun_eq_iff)

lemma near_curve_geom:
  "width w' = width w \<Longrightarrow> height w' = height w \<Longrightarrow> near_curve gv w' = near_curve gv w"
  by (simp add: near_curve_def rel_x_def fun_eq_iff get_y_value_for_def)

lemma grab_fields [simp]:
  "width (grab w mx my h) = width w"
  "height (grab w mx my h) = height w"
  "curves (grab w mx my h) = curves w"
  "changes (grab w mx my h) = changes w"
  "updates (grab w mx my h) = updates w"
  "selected_point (grab w mx my h) = Some (fst h, fst (snd h))"
  by (cases h; simp add: grab_def)+

lemma grab_geom:
  "width w' = width w \<Longrightarrow> height w' = height w \<Longrightarrow>
   drag_point (grab w' mx my h) = drag_point (grab w mx my h)"
  by (cases h) (simp add: grab_def get_x_value_for_def get_y_value_for_def)

lemma spawn_fields [simp]:
  "width (spawn gv w mx i c) = width w"
  "height (spawn gv w mx i c) = height w"
  "updates (spawn gv w mx i c) = updates w"
  "changes (spawn gv w mx i c) = changes w + 1"
  "length (curves (spawn gv w mx i c)) = length (curves w)"
  "selected_point (spawn gv w mx i c) = Some (i, length (cv_points c))"
  "drag_point (spawn gv w mx i c) = Some (i, length (cv_points c), (0, 0))"
  by (simp_all add: spawn_def)

lemma scan_points_step:
  "scan_points w index mouse_x mouse_y cv_index (p # ps) =
     scan_points (if hit w mouse_x mouse_y p then grab w mouse_x mouse_y (index, cv_index, p) else w)
        index mouse_x mouse_y (Suc cv_index) ps"
  by (cases p) (simp add: hit_def grab_def Let_def)

lemma grab_grab: "grab (grab w mx my h) mx my h' = grab w mx my h'"
  by (cases h, cases h') (simp add: grab_def get_x_value_for_def get_y_value_for_def)

lemma curve_hits_Cons:
  "curve_hits w mx my i k (p # ps) =
     (if hit w mx my p then [(i, k, p)] else []) @ curve_hits w mx my i (Suc k) ps"
  by (simp add: curve_hits_def enumerate_simps)

lemma grab_preds [simp]:
  "hit (grab w mx my h) = hit w"
  "curve_hits (grab w mx my h) = curve_hits w"
  "all_hits (grab w mx my h) mx' my' i cs = all_hits w mx' my' i cs"
  "in_bounds (grab w mx my h) = in_bounds w"
  "near_curve gv (grab w mx my h) = near_curve gv w"
  by (rule hit_geom curve_hits_geom all_hits_geom in_bounds_geom near_curve_geom; simp)+

lemma spawn_preds [simp]:
  "hit (spawn gv w mx i c) = hit w"
  "curve_hits (spawn gv w mx i c) = curve_hits w"
  "all_hits (spawn gv w mx i c) mx' my' j cs = all_hits w mx' my' j cs"
  "in_bounds (spawn gv w mx i c) = in_bounds w"
  "near_curve gv' (spawn gv w mx i c) = near_curve gv' w"
  by (rule hit_geom curve_hits_geom all_hits_geom in_bounds_geom near_curve_geom; simp)+

lemma scan_points_hits:
  "scan_points w i mx my k ps =
     (if curve_hits w mx my i k ps = [] then w
      else grab w mx my (last (curve_hits w mx my i k ps)))"
proof (induction ps arbitrary: w k)
  case Nil
  show ?case by (simp add: curve_hits_def)
next
  case (Cons p ps)
  show ?case
    by (simp only: scan_points_step Cons.IH curve_hits_Cons)
       (simp add: grab_grab)
qed

lemma click_curve_eq:
  "click_curve gv w mx my i c =
     Inr (if in_bounds w mx my \<and> near_curve gv w mx my c \<and> selected_point w = None
          then spawn gv w mx i c else w)"
  by (auto simp add: click_curve_def in_bounds_def near_curve_def rel_x_def float_div_def
      append_cv_def spawn_def Let_def)

lemma press_loop_Cons:
  "press_loop gv w mx my i (c # cs) = press_loop gv (press_step gv w mx my i c) mx my (Suc i) cs"
  by (simp add: click_curve_eq scan_points_hits press_step_def get_cv_points_def Let_def)


lemma press_step_fields [simp]:
  "width (press_step gv w mx my i c) = width w"
  "height (press_step gv w mx my i c) = height w"
  "updates (press_step gv w mx my i c) = updates w"
  "length (curves (press_step gv w mx my i c)) = length (curves w)"
  by (simp_all add: press_step_def Let_def)

lemma press_step_preds [simp]:
  "hit (press_step gv w mx my i c) = hit w"
  "curve_hits (press_step gv w mx my i c) = curve_hits w"
  "all_hits (press_step gv w mx my i c) mx' my' j cs = all_hits w mx' my' j cs"
  "in_bounds (press_step gv w mx my i c) = in_bounds w"
  "near_curve gv' (press_step gv w mx my i c) = near_curve gv' w"
  by (rule hit_geom curve_hits_geom all_hits_geom in_bounds_geom near_curve_geom; simp)+

lemma press_step_selected:
  assumes "selected_point w \<noteq> None"
  shows "curves (press_step gv w mx my i c) = curves w"
    and "changes (press_step gv w mx my i c) = changes w"
    and "selected_point (press_step gv w mx my i c) \<noteq> None"
  using assms by (auto simp add: press_step_def Let_def)

lemma press_step_idle:
  "curve_hits w mx my i 0 (cv_points c) = [] \<Longrightarrow> selected_point w \<noteq> None \<Longrightarrow>
   press_step gv w mx my i c = w"
  by (auto simp add: press_step_def)


lemma press_step_nth:
  "j \<noteq> i \<Longrightarrow> curves (press_step gv w mx my i c) ! j = curves w ! j"
  by (simp add: press_step_def Let_def spawn_def)

lemma press_step_drop:
  "drop (Suc i) (curves (press_step gv w mx my i c)) = drop (Suc i) (curves w)"
  by (simp add: press_step_def Let_def spawn_def)

lemma total_points_spawn:
  assumes "i < length (curves w)" and "curves w ! i = c"
  shows "total_points (spawn gv w mx i c) = total_points w + 1"
proof -
  let ?f = "\<lambda>c. length (cv_points c)"
  let ?c' = "c\<lparr>cv_points := cv_points c @ [(rel_x w mx, gv c (rel_x w mx))]\<rparr>"
  have split: "curves w = take i (curves w) @ c # drop (Suc i) (curves w)"
    unfolding assms(2) [symmetric] by (rule id_take_nth_drop [OF assms(1)])
  have upd: "(curves w)[i := ?c'] = take i (curves w) @ ?c' # drop (Suc i) (curves w)"
    using assms(1) by (simp add: upd_conv_take_nth_drop)
  have "sum_list (map ?f ((curves w)[i := ?c'])) =
        sum_list (map ?f (take i (curves w))) + (?f c + 1) + sum_list (map ?f (drop (Suc i) (curves w)))"
    by (simp only: upd) simp
  moreover have "sum_list (map ?f (curves w)) =
        sum_list (map ?f (take i (curves w))) + ?f c + sum_list (map ?f (drop (Suc i) (curves w)))"
    by (subst split) simp
  ultimately show ?thesis
    by (simp add: total_points_def spawn_def)
qed

lemma press_step_count:
  assumes "i < length (curves w)" and "curves w ! i = c"
  shows "(curves (press_step gv w mx my i c) = curves w
            \<and> changes (press_step gv w mx my i c) = changes w)
         \<or> (selected_point w = None
            \<and> selected_point (press_step gv w mx my i c) \<noteq> None
            \<and> total_points (press_step gv w mx my i c) = total_points w + 1
            \<and> changes (press_step gv w mx my i c) = changes w + 1)"
  using total_points_spawn [OF assms, of gv mx]
  by (auto simp add: press_step_def Let_def)

lemma press_loop_total: "\<exists>w'. press_loop gv w mx my i cs = Inr w'"
  by (induction cs arbitrary: w i) (simp_all add: press_loop_Cons del: press_loop.simps(2))

lemma press_loop_fields:
  "press_loop gv w mx my i cs = Inr w' \<Longrightarrow>
   width w' = width w \<and> height w' = height w \<and> updates w' = updates w
   \<and> length (curves w') = length (curves w)"
proof (induction cs arbitrary: w i)
  case Nil
  then show ?case by simp
next
  case (Cons c cs)
  from Cons.prems have "press_loop gv (press_step gv w mx my i c) mx my (Suc i) cs = Inr w'"
    by (simp only: press_loop_Cons)
  from Cons.IH [OF this] show ?case by simp
qed

lemma press_loop_selected:
  "selected_point w \<noteq> None \<Longrightarrow> press_loop gv w mx my i cs = Inr w' \<Longrightarrow>
   curves w' = curves w \<and> changes w' = changes w \<and> selected_point w' \<noteq> None"
proof (induction cs arbitrary: w i)
  case Nil
  then show ?case by simp
next
  case (Cons c cs)
  from Cons.prems(2) have "press_loop gv (press_step gv w mx my i c) mx my (Suc i) cs = Inr w'"
    by (simp only: press_loop_Cons)
  from Cons.IH [OF press_step_selected(3) [OF Cons.prems(1)] this]
  show ?case by (simp add: press_step_selected [OF Cons.prems(1)])
qed

lemma press_loop_idle:
  "all_hits w mx my i cs = [] \<Longrightarrow> selected_point w \<noteq> None \<Longrightarrow>
   press_loop gv w mx my i cs = Inr w"
proof (induction cs arbitrary: i)
  case Nil
  show ?case by simp
next
  case (Cons c cs)
  from Cons.prems have "press_step gv w mx my i c = w"
    by (simp add: press_step_idle)
  with Cons show ?case
    by (simp only: press_loop_Cons) simp
qed


lemma curve_hits_empty:
  "curve_hits w mx my i k ps = [] \<longleftrightarrow> (\<forall>p\<in>set ps. \<not> hit w mx my p)"
  by (induction ps arbitrary: k) (simp_all add: curve_hits_Cons, simp add: curve_hits_def)

lemma press_step_trigger:
  "curve_hits w mx my i 0 (cv_points c) \<noteq> [] \<or> (in_bounds w mx my \<and> near_curve gv w mx my c) \<Longrightarrow>
   selected_point (press_step gv w mx my i c) \<noteq> None"
  by (auto simp add: press_step_def Let_def)

lemma drop_ConsD:
  assumes "drop i xs = c # cs"
  shows "i < length xs" and "xs ! i = c" and "drop (Suc i) xs = cs"
proof -
  show len: "i < length xs"
    using assms by (cases "i < length xs") simp_all
  from Cons_nth_drop_Suc [OF len] assms show "xs ! i = c" and "drop (Suc i) xs = cs"
    by simp_all
qed

lemma press_loop_last_hit:
  assumes "all_hits w mx my i cs \<noteq> []"
  shows "\<exists>w'. press_loop gv w mx my i cs = Inr w'
           \<and> selected_point w' = selected_point (grab w mx my (last (all_hits w mx my i cs)))
           \<and> drag_point w' = drag_point (grab w mx my (last (all_hits w mx my i cs)))"
  using assms
proof (induction cs arbitrary: w i)
  case Nil
  then show ?case by simp
next
  case (Cons c cs)
  let ?w1 = "press_step gv w mx my i c"
  let ?hs = "curve_hits w mx my i 0 (cv_points c)"
  show ?case
  proof (cases "all_hits w mx my (Suc i) cs = []")
    case True
    with Cons.prems have hs: "?hs \<noteq> []" by simp
    then have w1: "?w1 = grab w mx my (last ?hs)"
      by (simp add: press_step_def)
    have "press_loop gv ?w1 mx my (Suc i) cs = Inr ?w1"
      by (rule press_loop_idle) (simp_all add: True, simp add: w1)
    then show ?thesis
      using True hs by (simp only: press_loop_Cons) (simp add: w1)
  next
    case False
    then have "all_hits ?w1 mx my (Suc i) cs \<noteq> []" by simp
    from Cons.IH [OF this] obtain w' where
      run: "press_loop gv ?w1 mx my (Suc i) cs = Inr w'"
      and sel: "selected_point w' = selected_point (grab ?w1 mx my (last (all_hits ?w1 mx my (Suc i) cs)))"
      and drag: "drag_point w' = drag_point (grab ?w1 mx my (last (all_hits ?w1 mx my (Suc i) cs)))"
      by blast
    have last: "last (all_hits w mx my i (c # cs)) = last (all_hits w mx my (Suc i) cs)"
      using False by simp
    have "drag_point (grab ?w1 mx my (last (all_hits w mx my (Suc i) cs)))
        = drag_point (grab w mx my (last (all_hits w mx my (Suc i) cs)))"
      by (rule grab_geom) simp_all
    with run sel drag show ?thesis
      by (simp only: press_loop_Cons last) simp
  qed
qed

lemma press_loop_count:
  assumes "drop i (curves w) = cs" and "press_loop gv w mx my i cs = Inr w'"
  shows "changes w' + total_points w = changes w + total_points w'
         \<and> changes w \<le> changes w'
         \<and> total_points w' \<le> total_points w + (if selected_point w = None then 1 else 0)"
  using assms
proof (induction cs arbitrary: w i)
  case Nil
  then show ?case by simp
next
  case (Cons c cs)
  let ?w1 = "press_step gv w mx my i c"
  note d = drop_ConsD [OF Cons.prems(1)]
  have run: "press_loop gv ?w1 mx my (Suc i) cs = Inr w'"
    using Cons.prems(2) by (simp only: press_loop_Cons)
  have "drop (Suc i) (curves ?w1) = cs"
    by (simp add: press_step_drop d(3))
  from Cons.IH [OF this run]
  have ih: "changes w' + total_points ?w1 = changes ?w1 + total_points w'"
    "changes ?w1 \<le> changes w'"
    "total_points w' \<le> total_points ?w1 + (if selected_point ?w1 = None then 1 else 0)"
    by simp_all
  from press_step_count [OF d(1) d(2), of gv mx my]
  show ?case
  proof
    assume same: "curves ?w1 = curves w \<and> changes ?w1 = changes w"
    then have tp: "total_points ?w1 = total_points w"
      by (simp add: total_points_def)
    have "selected_point w \<noteq> None \<Longrightarrow> selected_point ?w1 \<noteq> None"
      by (rule press_step_selected(3))
    with ih same tp show ?thesis by (auto split: if_splits)
  next
    assume "selected_point w = None \<and> selected_point ?w1 \<noteq> None
            \<and> total_points ?w1 = total_points w + 1 \<and> changes ?w1 = changes w + 1"
    with ih show ?thesis by (auto split: if_splits)
  qed
qed

lemma press_loop_blocked:
  assumes "press_loop gv w mx my i cs = Inr w'" and "j < k" and "k < length cs"
    and "(\<exists>p\<in>set (cv_points (cs ! j)). hit w mx my p)
         \<or> (in_bounds w mx my \<and> near_curve gv w mx my (cs ! j))"
  shows "curves w' ! (i + k) = curves w ! (i + k)"
  using assms
proof (induction cs arbitrary: w i j k)
  case Nil
  then show ?case by simp
next
  case (Cons c cs)
  let ?w1 = "press_step gv w mx my i c"
  have run: "press_loop gv ?w1 mx my (Suc i) cs = Inr w'"
    using Cons.prems(1) by (simp only: press_loop_Cons)
  from Cons.prems(2) obtain k' where k: "k = Suc k'" by (cases k) simp_all
  have nth: "curves ?w1 ! (i + k) = curves w ! (i + k)"
    by (rule press_step_nth) (simp add: k)
  show ?case
  proof (cases j)
    case 0
    with Cons.prems(4) have "selected_point ?w1 \<noteq> None"
      by (intro press_step_trigger) (simp add: curve_hits_empty)
    from press_loop_selected [OF this run] nth show ?thesis by simp
  next
    case (Suc j')
    have "curves w' ! (Suc i + k') = curves ?w1 ! (Suc i + k')"
      using Cons.prems(2,3,4) Suc k
      by (intro Cons.IH [OF run, of j' k']) simp_all
    with nth k show ?thesis by simp
  qed
qed



lemma all_hits_member:
  "(i, k, p) \<in> set (all_hits w mx my i0 cs) \<longleftrightarrow>
     i0 \<le> i \<and> i - i0 < length cs \<and> k < length (cv_points (cs ! (i - i0)))
     \<and> cv_points (cs ! (i - i0)) ! k = p \<and> hit w mx my p"
proof (induction cs arbitrary: i0)
  case Nil
  show ?case by simp
next
  case (Cons c cs)
  have here: "(i, k, p) \<in> set (curve_hits w mx my i0 0 (cv_points c)) \<longleftrightarrow>
      i = i0 \<and> k < length (cv_points c) \<and> cv_points c ! k = p \<and> hit w mx my p"
    by (auto simp add: curve_hits_def in_set_enumerate_eq)
  have later: "(c # cs) ! (i - i0) = cs ! (i - Suc i0)" if "i0 < i"
  proof -
    from that obtain d where "i - i0 = Suc d" and "i - Suc i0 = d"
      by (cases "i - i0") simp_all
    then show ?thesis by simp
  qed
  show ?case
  proof (cases "i0 < i")
    case True
    then have "(i, k, p) \<notin> set (curve_hits w mx my i0 0 (cv_points c))"
      by (simp add: here)
    with True show ?thesis
      by (simp add: Cons.IH later) linarith
  next
    case False
    then have "(i, k, p) \<notin> set (all_hits w mx my (Suc i0) cs)"
      by (simp add: Cons.IH)
    with False show ?thesis
      by (auto simp add: here)
  qed
qed


lemma reset_preds [simp]:
  "hit (w\<lparr>drag_point := None, selected_point := None\<rparr>) = hit w"
  "all_hits (w\<lparr>drag_point := None, selected_point := None\<rparr>) mx my i cs = all_hits w mx my i cs"
  "in_bounds (w\<lparr>drag_point := None, selected_point := None\<rparr>) = in_bounds w"
  "near_curve gv (w\<lparr>drag_point := None, selected_point := None\<rparr>) = near_curve gv w"
  by (rule hit_geom all_hits_geom in_bounds_geom near_curve_geom; simp)+

lemma mousePressEvent_loop:
  "press_loop gv (w\<lparr>drag_point := None, selected_point := None\<rparr>)
      (px - legend_border) (py - bar_h) 0 (curves w) = Inr w1 \<Longrightarrow>
   mousePressEvent gv w px py = Inr (w1\<lparr>updates := updates w1 + 1\<rparr>)"
  by (simp add: mousePressEvent_def Let_def)

subsection \<open>Pressing\<close>

text \<open>
  C1, as the code has it. The press handler tests the control points curve by curve in
  display order and, within a curve, in storage order, and it keeps testing after a match:
  when at least one control point contains the pointer in its tolerance square (less than
  3 + 6 pixels away on each axis), the last such point in test order becomes both the
  selection and the drag point, with the pixel delta between point and pointer as its
  offset. Every later-tested matching point replaces an earlier one.
\<close>

theorem press_last_hit_wins:
  assumes "all_hits w (px - legend_border) (py - bar_h) 0 (curves w) \<noteq> []"
    and "last (all_hits w (px - legend_border) (py - bar_h) 0 (curves w)) = (i, k, x, y)"
  shows "\<exists>w'. mousePressEvent gv w px py = Inr w'
           \<and> selected_point w' = Some (i, k)
           \<and> drag_point w' =
               Some (i, k, (get_x_value_for w x - real_of_int (px - legend_border),
                            get_y_value_for w y - real_of_int bar_h - real_of_int (py - bar_h)))
           \<and> i < length (curves w) \<and> k < length (cv_points (curves w ! i))
           \<and> cv_points (curves w ! i) ! k = (x, y)
           \<and> hit w (px - legend_border) (py - bar_h) (x, y)"
proof -
  let ?w0 = "w\<lparr>drag_point := None, selected_point := None\<rparr>"
  let ?mx = "px - legend_border" and ?my = "py - bar_h"
  have "all_hits ?w0 ?mx ?my 0 (curves w) \<noteq> []"
    using assms(1) by simp
  from press_loop_last_hit [OF this, of gv] obtain w1 where
    run: "press_loop gv ?w0 ?mx ?my 0 (curves w) = Inr w1"
    and sel: "selected_point w1 = selected_point (grab ?w0 ?mx ?my (i, k, x, y))"
    and drag: "drag_point w1 = drag_point (grab ?w0 ?mx ?my (i, k, x, y))"
    using assms(2) by auto
  have "(i, k, x, y) \<in> set (all_hits w ?mx ?my 0 (curves w))"
    using assms last_in_set by metis
  then have mem: "i < length (curves w) \<and> k < length (cv_points (curves w ! i))
           \<and> cv_points (curves w ! i) ! k = (x, y) \<and> hit w ?mx ?my (x, y)"
    by (simp add: all_hits_member)
  from mousePressEvent_loop [OF run] sel drag mem show ?thesis
    by (simp add: grab_def get_x_value_for_def get_y_value_for_def)
qed

theorem press_last_hit_wins_witness:
  "all_hits two_point_widget (227 - legend_border) (139 - bar_h) 0 (curves two_point_widget)
     = [(0, 0, 1 / 2, 1 / 2), (0, 1, 51 / 100, 1 / 2)]
   \<and> (\<exists>w'. mousePressEvent get_value two_point_widget 227 139 = Inr w'
          \<and> selected_point w' = Some (0, 1)
          \<and> drag_point w' = Some (0, 1, (62 / 25, 0)))"
proof -
  have hits: "all_hits two_point_widget (227 - legend_border) (139 - bar_h) 0
      (curves two_point_widget) = [(0, 0, 1 / 2, 1 / 2), (0, 1, 51 / 100, 1 / 2)]"
    by (simp add: two_point_widget_def run_defs pred_defs)
  from press_last_hit_wins [of two_point_widget 227 139 0 1 "51 / 100" "1 / 2" get_value] hits
  show ?thesis
    by (simp add: two_point_widget_def run_defs)
qed

theorem first_hit_replaced:
  "hit two_point_widget 175 109 (1 / 2, 1 / 2)
   \<and> mousePressEvent get_value two_point_widget 227 139
       = Inr (two_point_widget\<lparr>drag_point := Some (0, 1, (62 / 25, 0)),
                               selected_point := Some (0, 1), updates := 2\<rparr>)"
  by (simp add: two_point_widget_def run_defs pred_defs)





text \<open>
  C3, as the code has it. A press inserts at most one control point in all curves
  together. Once a point is selected on a curve, by a hit or by an insertion (the curve is
  near the pointer inside the bounds), every later curve keeps exactly the control points
  it had, also when its own line is near the pointer.
\<close>

theorem press_inserts_once:
  "\<exists>w'. mousePressEvent gv w px py = Inr w'
       \<and> total_points w' \<le> total_points w + 1
       \<and> (\<forall>j k. j < k \<and> k < length (curves w)
              \<and> ((\<exists>p\<in>set (cv_points (curves w ! j)). hit w (px - legend_border) (py - bar_h) p)
                  \<or> (in_bounds w (px - legend_border) (py - bar_h)
                      \<and> near_curve gv w (px - legend_border) (py - bar_h) (curves w ! j)))
            \<longrightarrow> curves w' ! k = curves w ! k)"
proof -
  let ?w0 = "w\<lparr>drag_point := None, selected_point := None\<rparr>"
  let ?mx = "px - legend_border" and ?my = "py - bar_h"
  obtain w1 where run: "press_loop gv ?w0 ?mx ?my 0 (curves w) = Inr w1"
    using press_loop_total by blast
  have "drop 0 (curves ?w0) = curves w" by simp
  from press_loop_count [OF this run]
  have one: "total_points w1 \<le> total_points w + 1"
    by (simp add: total_points_def)
  have blocked: "curves w1 ! k = curves w ! k"
    if "j < k" "k < length (curves w)"
      "(\<exists>p\<in>set (cv_points (curves w ! j)). hit w ?mx ?my p)
         \<or> (in_bounds w ?mx ?my \<and> near_curve gv w ?mx ?my (curves w ! j))"
    for j k
    using press_loop_blocked [OF run that(1,2)] that(3) by simp
  then have all: "\<forall>j k. j < k \<and> k < length (curves w)
              \<and> ((\<exists>p\<in>set (cv_points (curves w ! j)). hit w ?mx ?my p)
                  \<or> (in_bounds w ?mx ?my \<and> near_curve gv w ?mx ?my (curves w ! j)))
            \<longrightarrow> curves w1 ! k = curves w ! k"
    by blast
  from mousePressEvent_loop [OF run] one all show ?thesis
    by (simp add: total_points_def)
qed

theorem press_inserts_once_witness:
  "\<exists>w'. mousePressEvent get_value two_line_widget 226 139 = Inr w'
       \<and> total_points w' \<le> total_points two_line_widget + 1
       \<and> curves w' ! 1 = curves two_line_widget ! 1"
proof -
  let ?w = two_line_widget
  have trig: "(0::nat) < 1 \<and> 1 < length (curves ?w)
      \<and> ((\<exists>p\<in>set (cv_points (curves ?w ! 0)). hit ?w (226 - legend_border) (139 - bar_h) p)
          \<or> (in_bounds ?w (226 - legend_border) (139 - bar_h)
              \<and> near_curve get_value ?w (226 - legend_border) (139 - bar_h) (curves ?w ! 0)))"
    by (simp add: two_line_widget_def run_defs pred_defs)
  from press_inserts_once [of get_value ?w 226 139] trig show ?thesis
    by blast
qed

theorem second_curve_not_inserted:
  "in_bounds two_line_widget 174 109
   \<and> near_curve get_value two_line_widget 174 109 (curves two_line_widget ! 1)
   \<and> mousePressEvent get_value two_line_widget 226 139
       = Inr (two_line_widget\<lparr>curves := [curve_of [(1 / 10, 1 / 2), (1 / 2, 1 / 2)],
                                         curve_of [(1 / 10, 1 / 2)]],
                              drag_point := Some (0, 1, (0, 0)),
                              selected_point := Some (0, 1),
                              changes := 1, updates := 2\<rparr>)"
  by (simp add: two_line_widget_def run_defs pred_defs)

subsection \<open>The change handler\<close>

text \<open>
  C7. A press fires the change handler once for every control point it inserts and not at
  all when it leaves the curves as they are (a press that only selects); a release never
  fires it and leaves the curves alone; a move that returns fires it once when a drag is
  active on a non-empty curve list and otherwise changes nothing; a delete that returns
  fires it once when a point is selected and otherwise changes nothing.
\<close>

theorem change_handler_fires:
  "(\<exists>w'. mousePressEvent gv w px py = Inr w'
        \<and> changes w' + total_points w = changes w + total_points w'
        \<and> changes w \<le> changes w'
        \<and> (curves w' = curves w \<longrightarrow> changes w' = changes w))
   \<and> changes (mouseReleaseEvent w) = changes w
   \<and> curves (mouseReleaseEvent w) = curves w
   \<and> (\<forall>w'. mouseMoveEvent w px py = Inr w' \<longrightarrow>
         (if curves w \<noteq> [] \<and> drag_point w \<noteq> None then changes w' = changes w + 1
          else w' = w))
   \<and> (\<forall>w'. keyPressEvent w Key_Delete = Inr w' \<longrightarrow>
         (if selected_point w \<noteq> None then changes w' = changes w + 1 else w' = w))"
proof -
  let ?w0 = "w\<lparr>drag_point := None, selected_point := None\<rparr>"
  let ?mx = "px - legend_border" and ?my = "py - bar_h"
  obtain w1 where run: "press_loop gv ?w0 ?mx ?my 0 (curves w) = Inr w1"
    using press_loop_total by blast
  have "drop 0 (curves ?w0) = curves w" by simp
  from press_loop_count [OF this run]
  have cnt: "changes w1 + total_points w = changes w + total_points w1" "changes w \<le> changes w1"
    by (simp_all add: total_points_def)
  have press: "\<exists>w'. mousePressEvent gv w px py = Inr w'
        \<and> changes w' + total_points w = changes w + total_points w'
        \<and> changes w \<le> changes w'
        \<and> (curves w' = curves w \<longrightarrow> changes w' = changes w)"
    using mousePressEvent_loop [OF run] cnt by (auto simp add: total_points_def)
  have release: "changes (mouseReleaseEvent w) = changes w \<and> curves (mouseReleaseEvent w) = curves w"
    by (simp add: mouseReleaseEvent_def)
  have move: "\<forall>w'. mouseMoveEvent w px py = Inr w' \<longrightarrow>
         (if curves w \<noteq> [] \<and> drag_point w \<noteq> None then changes w' = changes w + 1
          else w' = w)"
    by (auto simp add: mouseMoveEvent_def Let_def split: option.splits sum.splits if_splits)
  have delete: "\<forall>w'. keyPressEvent w Key_Delete = Inr w' \<longrightarrow>
         (if selected_point w \<noteq> None then changes w' = changes w + 1 else w' = w)"
    by (auto simp add: delete_current_point_def split: option.splits sum.splits if_splits)
  from press release move delete show ?thesis by blast
qed

theorem change_handler_fires_witness:
  "(\<exists>w'. mousePressEvent get_value two_line_widget 226 139 = Inr w'
        \<and> changes w' = 1 \<and> total_points w' = 3)
   \<and> (\<exists>w'. mousePressEvent get_value single_point_widget 230 139 = Inr w'
        \<and> changes w' = 0 \<and> curves w' = curves single_point_widget)
   \<and> changes (mouseReleaseEvent grabbed_widget) = 0
   \<and> (\<exists>w'. mouseMoveEvent grabbed_widget 230 139 = Inr w' \<and> changes w' = 1)
   \<and> (\<exists>w'. keyPressEvent grabbed_widget Key_Delete = Inr w' \<and> changes w' = 1)
   \<and> mouseMoveEvent single_point_widget 230 139 = Inr single_point_widget
   \<and> keyPressEvent single_point_widget Key_Delete = Inr single_point_widget"
  using change_handler_fires [of get_value two_line_widget 226 139]
    change_handler_fires [of get_value single_point_widget 230 139]
    change_handler_fires [of get_value grabbed_widget 230 139]
  by (simp add: two_line_widget_def single_point_widget_def grabbed_widget_def
      mouseReleaseEvent_def delete_current_point_def remove_cv_def run_defs pred_defs)

subsection \<open>Degenerate canvas sizes\<close>

text \<open>
  C8, as the code has it. The press handler returns for every canvas size: it divides by
  the plot width only after checking that the pointer is strictly between 0 and that
  width. The move handler has no such check: with an active drag and a plot of zero width
  or zero height it raises ZeroDivisionError.
\<close>

theorem division_by_zero_faults:
  "(\<exists>w'. mousePressEvent gv w px py = Inr w')
   \<and> (curves w \<noteq> [] \<and> drag_point w \<noteq> None
        \<and> (width w = legend_border \<or> height w = legend_border + bar_h)
      \<longrightarrow> mouseMoveEvent w px py = Inl ZeroDivisionError)"
proof -
  obtain w1 where "press_loop gv (w\<lparr>drag_point := None, selected_point := None\<rparr>)
      (px - legend_border) (py - bar_h) 0 (curves w) = Inr w1"
    using press_loop_total by blast
  from mousePressEvent_loop [OF this] have "\<exists>w'. mousePressEvent gv w px py = Inr w'" by blast
  moreover have "curves w \<noteq> [] \<and> drag_point w \<noteq> None
        \<and> (width w = legend_border \<or> height w = legend_border + bar_h)
      \<longrightarrow> mouseMoveEvent w px py = Inl ZeroDivisionError"
    by (auto simp add: mouseMoveEvent_def float_div_def Let_def split: option.splits)
  ultimately show ?thesis by blast
qed

theorem division_by_zero_faults_witness:
  "(\<exists>w'. mousePressEvent get_value flat_widget 226 30 = Inr w')
   \<and> mouseMoveEvent (flat_widget\<lparr>drag_point := Some (0, 0, (0, 0)),
                                 selected_point := Some (0, 0), updates := 2\<rparr>) 226 30
       = Inl ZeroDivisionError"
  using division_by_zero_faults [of get_value flat_widget 226 30]
    division_by_zero_faults [of get_value "flat_widget\<lparr>drag_point := Some (0, 0, (0, 0)),
                                 selected_point := Some (0, 0), updates := 2\<rparr>" 226 30]
  by (simp add: flat_widget_def run_defs)

theorem move_on_zero_width_faults:
  "width narrow_widget = legend_border
   \<and> mousePressEvent get_value narrow_widget 55 139
       = Inr (narrow_widget\<lparr>drag_point := Some (0, 0, (- 3, 0)),
                            selected_point := Some (0, 0), updates := 2\<rparr>)
   \<and> mouseMoveEvent (narrow_widget\<lparr>drag_point := Some (0, 0, (- 3, 0)),
                            selected_point := Some (0, 0), updates := 2\<rparr>) 55 139
       = Inl ZeroDivisionError"
  by (simp add: narrow_widget_def run_defs)

subsection \<open>Deleting the selected point\<close>

text \<open>
  C6. On the delete key with a selection present (pointing at a control point that
  exists), exactly the selected control point is removed from its curve and every other
  curve stays as it is, selection and drag point become empty and the change handler
  fires once; with no selection the whole state stays as it is, so the change handler does
  not fire.
\<close>

theorem delete_current_point_effect:
  "(selected_point w = None \<longrightarrow> keyPressEvent w Key_Delete = Inr w)
   \<and> (selected_point w = Some (ci, pti) \<and> ci < length (curves w)
        \<and> pti < length (cv_points (curves w ! ci)) \<longrightarrow>
      (\<exists>w'. keyPressEvent w Key_Delete = Inr w'
         \<and> cv_points (curves w' ! ci)
             = take pti (cv_points (curves w ! ci)) @ drop (Suc pti) (cv_points (curves w ! ci))
         \<and> Suc (length (cv_points (curves w' ! ci))) = length (cv_points (curves w ! ci))
         \<and> length (curves w') = length (curves w)
         \<and> (\<forall>k. k \<noteq> ci \<longrightarrow> curves w' ! k = curves w ! k)
         \<and> selected_point w' = None \<and> drag_point w' = None
         \<and> changes w' = changes w + 1))"
  by (auto simp add: delete_current_point_def remove_cv_def)

theorem delete_current_point_effect_witness:
  "keyPressEvent single_point_widget Key_Delete = Inr single_point_widget
   \<and> keyPressEvent grabbed_widget Key_Delete
       = Inr (single_point_widget\<lparr>curves := [curve_of []], updates := 2, changes := 1\<rparr>)"
  using delete_current_point_effect [of single_point_widget 0 0]
    delete_current_point_effect [of grabbed_widget 0 0]
  by (simp add: delete_current_point_def remove_cv_def grabbed_widget_def
      single_point_widget_def run_defs)

subsection \<open>Dragging\<close>

text \<open>
  C5. A move event during a drag (the drag point names a control point that exists, the
  plot is neither zero pixels wide nor zero pixels high) writes coordinates between 0 and
  1 into the dragged point. On a plot of positive size, a position at or beyond the right
  edge is stored as x = 1, one at or beyond the left edge as x = 0, one at or below the
  bottom edge as y = 0 and one at or above the top edge as y = 1.
\<close>

theorem drag_move_clamped:
  assumes "drag_point w = Some (ci, pti, (ox, oy))"
    and "ci < length (curves w)"
    and "pti < length (cv_points (curves w ! ci))"
    and "width w \<noteq> legend_border"
    and "height w \<noteq> legend_border + bar_h"
  shows "\<exists>w' lx ly. mouseMoveEvent w px py = Inr w'
           \<and> cv_points (curves w' ! ci) ! pti = (lx, ly)
           \<and> 0 \<le> lx \<and> lx \<le> 1 \<and> 0 \<le> ly \<and> ly \<le> 1
           \<and> (0 < width w - legend_border
                \<and> real_of_int (width w - legend_border)
                     \<le> real_of_int px - ox - real_of_int legend_border \<longrightarrow> lx = 1)
           \<and> (0 < width w - legend_border
                \<and> real_of_int px - ox - real_of_int legend_border \<le> 0 \<longrightarrow> lx = 0)
           \<and> (0 < height w - legend_border - bar_h
                \<and> real_of_int (height w - legend_border - bar_h)
                     \<le> real_of_int py - oy - real_of_int bar_h \<longrightarrow> ly = 0)
           \<and> (0 < height w - legend_border - bar_h
                \<and> real_of_int py - oy - real_of_int bar_h \<le> 0 \<longrightarrow> ly = 1)"
proof -
  let ?W = "real_of_int (width w - legend_border)"
  let ?H = "real_of_int (height w - legend_border - bar_h)"
  let ?mx = "real_of_int px - ox - real_of_int legend_border"
  let ?my = "real_of_int py - oy - real_of_int bar_h"
  let ?lx = "max 0 (min 1 (?mx / ?W))"
  let ?ly = "1 - max 0 (min 1 (?my / ?H))"
  let ?w' = "w\<lparr>curves := (curves w)[ci := (curves w ! ci)
                  \<lparr>cv_points := (cv_points (curves w ! ci))[pti := (?lx, ?ly)]\<rparr>],
               updates := updates w + 1, changes := changes w + 1\<rparr>"
  have W: "?W \<noteq> 0" and H: "?H \<noteq> 0" using assms(4,5) by simp_all
  have ne: "curves w \<noteq> []" using assms(2) by auto
  have run: "mouseMoveEvent w px py = Inr ?w'"
    using assms(1,2,3) W H ne
    by (simp add: mouseMoveEvent_def float_div_def set_cv_value_def build_curve_def Let_def)
  have pt: "cv_points (curves ?w' ! ci) ! pti = (?lx, ?ly)"
    using assms(2,3) by simp
  have right: "0 < ?W \<Longrightarrow> ?W \<le> ?mx \<Longrightarrow> ?lx = 1"
    by (simp add: min_def max_def)
  have left: "?lx = 0" if "0 < ?W" "?mx \<le> 0"
  proof -
    have "?mx / ?W \<le> 0" using that by (rule_tac divide_nonpos_pos)
    then show ?thesis by (simp only: min_def max_def split: if_splits) auto
  qed
  have bottom: "0 < ?H \<Longrightarrow> ?H \<le> ?my \<Longrightarrow> ?ly = 0"
    by (simp add: min_def max_def)
  have top: "?ly = 1" if "0 < ?H" "?my \<le> 0"
  proof -
    have "?my / ?H \<le> 0" using that by (rule_tac divide_nonpos_pos)
    then show ?thesis by (simp only: min_def max_def split: if_splits) auto
  qed
  have bounds: "0 \<le> ?lx \<and> ?lx \<le> 1 \<and> 0 \<le> ?ly \<and> ?ly \<le> 1"
    by (simp add: min_def max_def)
  show ?thesis
    apply (rule exI [of _ ?w'])
    apply (rule exI [of _ ?lx])
    apply (rule exI [of _ ?ly])
    using run pt right left bottom top bounds
    apply (intro conjI impI)
    apply simp_all
    done
qed

theorem drag_move_clamped_witness:
  "\<exists>w' lx ly. mouseMoveEvent grabbed_widget 1000 (- 50) = Inr w'
           \<and> cv_points (curves w' ! 0) ! 0 = (lx, ly)
           \<and> 0 \<le> lx \<and> lx \<le> 1 \<and> 0 \<le> ly \<and> ly \<le> 1 \<and> lx = 1 \<and> ly = 1"
  using drag_move_clamped [of grabbed_widget 0 0 0 0 1000 "- 50"]
  by (simp add: grabbed_widget_def single_point_widget_def run_defs)

text \<open>
  C4. The grab offset is meant to keep a grabbed point where it is while the pointer does
  not move. The run below presses 4 pixels to the right of the only control point, which
  sits in pixel column 174 of a 400 by 300 canvas, and then moves the pointer without
  changing its position: the press stores the offset point minus pointer, (-4, 0), the move
  subtracts it from the pointer, and the point is written to x = 91/174, pixel column 182,
  on the other side of the pointer.
\<close>

theorem grab_offset_run:
  "mousePressEvent get_value single_point_widget 230 139
     = Inr (single_point_widget\<lparr>drag_point := Some (0, 0, (- 4, 0)),
                                selected_point := Some (0, 0), updates := 2\<rparr>)
   \<and> mouseMoveEvent (single_point_widget\<lparr>drag_point := Some (0, 0, (- 4, 0)),
                                selected_point := Some (0, 0), updates := 2\<rparr>) 230 139
     = Inr (single_point_widget\<lparr>curves := [curve_of [(91 / 174, 1 / 2)]],
             drag_point := Some (0, 0, (- 4, 0)),
             selected_point := Some (0, 0), updates := 3, changes := 1\<rparr>)
   \<and> get_x_value_for single_point_widget (1 / 2) = 174
   \<and> get_x_value_for single_point_widget (91 / 174) = 182"
  by (simp add: single_point_widget_def run_defs)

subsection \<open>The preview bar\<close>

lemma map_result_Inr:
  "(\<And>x. x \<in> set xs \<Longrightarrow> f x = Inr (g x)) \<Longrightarrow> map_result f xs = Inr (map g xs)"
  by (induction xs) simp_all

lemma map_result_Inl:
  "f x = Inl e \<Longrightarrow> map_result f (x # xs) = Inl e"
  by simp

lemma draw_labels:
  assumes "height w \<noteq> legend_border + bar_h"
  shows "float_div (real_of_int (height w - legend_border - bar_h))
           (real_of_int (height w - legend_border - bar_h) / 20) = Inr 20"
    and "map_result (\<lambda>i. float_div (real i) (real_of_int (\<lceil>20::real\<rceil> + 1 - 1)))
           [0..<nat (\<lceil>20::real\<rceil> + 1)]
         = Inr (map (\<lambda>i. real i / 20) [0..<21])"
proof -
  show "float_div (real_of_int (height w - legend_border - bar_h))
           (real_of_int (height w - legend_border - bar_h) / 20) = Inr 20"
  proof -
    define h where "h = real_of_int (height w - legend_border - bar_h)"
    have "h \<noteq> 0" using assms by (simp add: h_def)
    then have "float_div h (h / 20) = Inr 20" by (simp add: float_div_def)
    then show ?thesis by (simp only: h_def)
  qed
  have "map_result (\<lambda>i. float_div (real i) (real_of_int (\<lceil>20::real\<rceil> + 1 - 1)))
           [0..<nat (\<lceil>20::real\<rceil> + 1)]
         = Inr (map (\<lambda>i. real i / 20) [0..<nat (\<lceil>20::real\<rceil> + 1)])"
    by (rule map_result_Inr) (simp add: float_div_def)
  then show "map_result (\<lambda>i. float_div (real i) (real_of_int (\<lceil>20::real\<rceil> + 1 - 1)))
           [0..<nat (\<lceil>20::real\<rceil> + 1)]
         = Inr (map (\<lambda>i. real i / 20) [0..<21])"
    by simp
qed

lemma draw_curve_line_ok:
  assumes "canvas_width \<noteq> 1"
  shows "draw_curve_line gv w canvas_width c
         = Inr (map (\<lambda>i. get_y_value_for w (gv c (real i / (real_of_int canvas_width - 1))))
                  [0..<nat canvas_width])"
  unfolding draw_curve_line_def
  using assms by (intro map_result_Inr) (simp add: float_div_def)

lemma draw_lines_ok:
  assumes "canvas_width \<noteq> 1"
  shows "map_result (draw_curve_line gv w canvas_width) cs
         = Inr (map (\<lambda>c. map (\<lambda>i. get_y_value_for w (gv c (real i / (real_of_int canvas_width - 1))))
                  [0..<nat canvas_width]) cs)"
  by (rule map_result_Inr) (rule draw_curve_line_ok [OF assms])

lemma draw_bar:
  assumes "height w \<noteq> legend_border + bar_h" and "width w - legend_border \<noteq> 1"
  shows "draw gv w =
     (if length (curves w) = 0 then
        Inr \<lparr>label_values = map (\<lambda>i. real i / 20) [0..<21],
             polylines = map (\<lambda>c. map (\<lambda>i. get_y_value_for w
                 (gv c (real i / (real_of_int (width w - legend_border) - 1))))
                    [0..<nat (width w - legend_border)]) (curves w),
             bar_pens = []\<rparr>
      else case map_result (bar_pen gv w (width w - legend_border))
                  [0..<nat (width w - legend_border - 1)] of
             Inl e \<Rightarrow> Inl e
           | Inr pens \<Rightarrow>
        Inr \<lparr>label_values = map (\<lambda>i. real i / 20) [0..<21],
             polylines = map (\<lambda>c. map (\<lambda>i. get_y_value_for w
                 (gv c (real i / (real_of_int (width w - legend_border) - 1))))
                    [0..<nat (width w - legend_border)]) (curves w),
             bar_pens = pens\<rparr>)"
  unfolding draw_def Let_def
  by (simp only: draw_labels [OF assms(1)] draw_lines_ok [OF assms(2)] sum.case)

lemma bar_pen_rgb:
  assumes "3 \<le> length (curves w)" and "canvas_width \<noteq> 0"
  shows "bar_pen gv w canvas_width i =
     Inr (channel (gv (curves w ! 0) (real i / real_of_int canvas_width)),
          channel (gv (curves w ! 1) (real i / real_of_int canvas_width)),
          channel (gv (curves w ! 2) (real i / real_of_int canvas_width)))"
  using assms by (auto simp add: bar_pen_def float_div_def py_index_def Let_def)

lemma bar_pen_two:
  assumes "length (curves w) = 2" and "canvas_width \<noteq> 0"
  shows "bar_pen gv w canvas_width i = Inl IndexError"
  using assms by (simp add: bar_pen_def float_div_def py_index_def Let_def)

lemma channel_eq:
  "channel v = max 0 (min 255 (if 0 \<le> v then \<lfloor>v * 255\<rfloor> else \<lceil>v * 255\<rceil>))"
proof -
  have "0 \<le> v * 255 \<longleftrightarrow> 0 \<le> v" by simp
  then show ?thesis by (simp only: channel_def py_int_def)
qed

text \<open>
  C9. With three or more curves, on a canvas whose plot is not zero pixels high and not
  exactly one pixel wide (where the earlier parts of the drawing fault), the drawing
  returns, and the pen of preview column \<open>i\<close> is the triple made of the first three
  curves, in the order red, green, blue: the sample of the curve at \<open>i / canvas_width\<close>
  times 255, truncated towards zero (the floor of a non-negative value, the ceiling of a
  negative one) and clamped to 0..255. A column where the three samples are 1, 0 and 0 has
  the pen (255, 0, 0).
\<close>

theorem preview_bar_rgb:
  assumes "3 \<le> length (curves w)"
    and "height w \<noteq> legend_border + bar_h"
    and "width w - legend_border \<noteq> 1"
  shows "\<exists>d. draw gv w = Inr d
           \<and> bar_pens d =
               map (\<lambda>i. (max 0 (min 255
                            (if 0 \<le> gv (curves w ! 0) (real i / real_of_int (width w - legend_border))
                             then \<lfloor>gv (curves w ! 0) (real i / real_of_int (width w - legend_border)) * 255\<rfloor>
                             else \<lceil>gv (curves w ! 0) (real i / real_of_int (width w - legend_border)) * 255\<rceil>)),
                         max 0 (min 255
                            (if 0 \<le> gv (curves w ! 1) (real i / real_of_int (width w - legend_border))
                             then \<lfloor>gv (curves w ! 1) (real i / real_of_int (width w - legend_border)) * 255\<rfloor>
                             else \<lceil>gv (curves w ! 1) (real i / real_of_int (width w - legend_border)) * 255\<rceil>)),
                         max 0 (min 255
                            (if 0 \<le> gv (curves w ! 2) (real i / real_of_int (width w - legend_border))
                             then \<lfloor>gv (curves w ! 2) (real i / real_of_int (width w - legend_border)) * 255\<rfloor>
                             else \<lceil>gv (curves w ! 2) (real i / real_of_int (width w - legend_border)) * 255\<rceil>))))
                 [0..<nat (width w - legend_border - 1)]
           \<and> (\<forall>i<nat (width w - legend_border - 1).
                 gv (curves w ! 0) (real i / real_of_int (width w - legend_border)) = 1
                 \<and> gv (curves w ! 1) (real i / real_of_int (width w - legend_border)) = 0
                 \<and> gv (curves w ! 2) (real i / real_of_int (width w - legend_border)) = 0
                 \<longrightarrow> bar_pens d ! i = (255, 0, 0))"
proof -
  let ?cw = "width w - legend_border"
  let ?s = "\<lambda>j i. gv (curves w ! j) (real i / real_of_int ?cw)"
  let ?q = "\<lambda>v::real. max 0 (min 255 (if 0 \<le> v then \<lfloor>v * 255\<rfloor> else \<lceil>v * 255\<rceil>))"
  let ?pen = "\<lambda>i. (?q (?s 0 i), ?q (?s 1 i), ?q (?s 2 i))"
  let ?n = "nat (?cw - 1)"
  have bar: "map_result (bar_pen gv w ?cw) [0..<?n] = Inr (map ?pen [0..<?n])"
  proof (rule map_result_Inr)
    fix i assume "i \<in> set [0..<?n]"
    then have "?cw \<noteq> 0" by auto
    from bar_pen_rgb [OF assms(1) this, of gv i] show "bar_pen gv w ?cw i = Inr (?pen i)"
      by (simp only: channel_eq)
  qed
  have ne: "length (curves w) \<noteq> 0" using assms(1) by auto
  define d where "d = \<lparr>label_values = map (\<lambda>i. real i / 20) [0..<21],
             polylines = map (\<lambda>c. map (\<lambda>i. get_y_value_for w
                 (gv c (real i / (real_of_int (width w - legend_border) - 1))))
                    [0..<nat (width w - legend_border)]) (curves w),
             bar_pens = map ?pen [0..<?n]\<rparr>"
  have run: "draw gv w = Inr d"
    using ne bar by (simp add: draw_bar [OF assms(2,3)] d_def)
  have pens: "bar_pens d = map ?pen [0..<?n]"
    by (simp add: d_def)
  have red: "bar_pens d ! i = (255, 0, 0)"
    if "i < ?n" "?s 0 i = 1" "?s 1 i = 0" "?s 2 i = 0" for i
  proof -
    have "bar_pens d ! i = ?pen i"
      using that(1) by (simp add: pens)
    also have "\<dots> = (?q 1, ?q 0, ?q 0)"
      by (simp only: that(2,3,4))
    also have "\<dots> = (255, 0, 0)"
      by simp
    finally show ?thesis .
  qed
  from run pens red show ?thesis
    by blast
qed

theorem preview_bar_rgb_witness:
  "\<exists>d. draw get_value three_line_widget = Inr d
       \<and> bar_pens d = [(255, 0, 0), (255, 0, 0), (255, 0, 0)]"
proof -
  have "3 \<le> length (curves three_line_widget)"
    and "height three_line_widget \<noteq> legend_border + bar_h"
    and "width three_line_widget - legend_border \<noteq> 1"
    by (simp_all add: three_line_widget_def run_defs)
  from preview_bar_rgb [OF this, of get_value] obtain d where
    "draw get_value three_line_widget = Inr d"
    and "\<forall>i<nat (width three_line_widget - legend_border - 1).
           get_value (curves three_line_widget ! 0)
               (real i / real_of_int (width three_line_widget - legend_border)) = 1
           \<and> get_value (curves three_line_widget ! 1)
               (real i / real_of_int (width three_line_widget - legend_border)) = 0
           \<and> get_value (curves three_line_widget ! 2)
               (real i / real_of_int (width three_line_widget - legend_border)) = 0
           \<longrightarrow> bar_pens d ! i = (255, 0, 0)"
    and "length (bar_pens d) = nat (width three_line_widget - legend_border - 1)"
    by (auto simp del: upt_Suc)
  then have "draw get_value three_line_widget = Inr d"
    and "length (bar_pens d) = 3"
    and "\<forall>i<3. bar_pens d ! i = (255, 0, 0)"
    by (simp_all add: three_line_widget_def run_defs)
  then have "draw get_value three_line_widget = Inr d
      \<and> bar_pens d = [(255, 0, 0), (255, 0, 0), (255, 0, 0)]"
    by (auto simp add: list_eq_iff_nth_eq less_Suc_eq numeral_3_eq_3)
  then show ?thesis ..
qed

text \<open>
  C10, as the code has it. With exactly two curves the drawing raises IndexError at the
  first column of the preview bar whenever that loop runs at all and the earlier parts
  have not faulted: the plot is at least two pixels wide and not zero pixels high. On a
  plot of zero height or of width one the drawing raises ZeroDivisionError before the bar,
  and on a plot of width zero or less (and nonzero height) the bar loop has no column and
  the drawing returns.
\<close>

theorem draw_two_curves:
  assumes "length (curves w) = 2"
  shows "(height w = legend_border + bar_h \<or> width w - legend_border = 1
            \<longrightarrow> draw gv w = Inl ZeroDivisionError)
       \<and> (height w \<noteq> legend_border + bar_h \<and> 2 \<le> width w - legend_border
            \<longrightarrow> draw gv w = Inl IndexError)
       \<and> (height w \<noteq> legend_border + bar_h \<and> width w - legend_border \<le> 0
            \<longrightarrow> (\<exists>d. draw gv w = Inr d \<and> bar_pens d = []))"
proof (intro conjI impI)
  assume "height w = legend_border + bar_h \<or> width w - legend_border = 1"
  then show "draw gv w = Inl ZeroDivisionError"
  proof (cases "height w = legend_border + bar_h")
    case True
    then show ?thesis by (simp add: draw_def float_div_def)
  next
    case False
    assume "height w = legend_border + bar_h \<or> width w - legend_border = 1"
    with False have one: "width w - legend_border = 1" by simp
    from assms obtain c cs where cs: "curves w = c # cs" by (cases "curves w") simp_all
    have "draw_curve_line gv w 1 c = Inl ZeroDivisionError"
      by (simp add: draw_curve_line_def float_div_def)
    then have "map_result (draw_curve_line gv w 1) (curves w) = Inl ZeroDivisionError"
      by (simp add: cs)
    then show ?thesis
      unfolding draw_def Let_def
      by (simp only: draw_labels [OF False] one sum.case)
  qed
next
  assume a: "height w \<noteq> legend_border + bar_h \<and> 2 \<le> width w - legend_border"
  then have "[0..<nat (width w - legend_border - 1)] = 0 # [1..<nat (width w - legend_border - 1)]"
    by (simp add: upt_conv_Cons)
  moreover have "bar_pen gv w (width w - legend_border) 0 = Inl IndexError"
    using a by (intro bar_pen_two assms) simp
  ultimately have "map_result (bar_pen gv w (width w - legend_border))
                  [0..<nat (width w - legend_border - 1)] = Inl IndexError"
    by simp
  then show "draw gv w = Inl IndexError"
    using a assms by (subst draw_bar) simp_all
next
  assume a: "height w \<noteq> legend_border + bar_h \<and> width w - legend_border \<le> 0"
  then have "[0..<nat (width w - legend_border - 1)] = []" by simp
  then show "\<exists>d. draw gv w = Inr d \<and> bar_pens d = []"
    using a assms by (subst draw_bar) simp_all
qed

theorem draw_two_curves_witness:
  "draw get_value (two_line_widget\<lparr>height := 82\<rparr>) = Inl ZeroDivisionError
   \<and> draw get_value two_line_widget = Inl IndexError
   \<and> (\<exists>d. draw get_value two_line_narrow_widget = Inr d \<and> bar_pens d = [])"
  using draw_two_curves [of "two_line_widget\<lparr>height := 82\<rparr>" get_value]
    draw_two_curves [of two_line_widget get_value]
    draw_two_curves [of two_line_narrow_widget get_value]
  by (simp add: two_line_widget_def two_line_narrow_widget_def run_defs)

theorem two_curves_drawn_on_empty_plot:
  "length (curves two_line_narrow_widget) = 2
   \<and> \<not> isl (draw get_value two_line_narrow_widget)
   \<and> polylines (projr (draw get_value two_line_narrow_widget)) = [[], []]
   \<and> bar_pens (projr (draw get_value two_line_narrow_widget)) = []"
proof -
  have "height two_line_narrow_widget \<noteq> legend_border + bar_h"
    and "width two_line_narrow_widget - legend_border \<noteq> 1"
    by (simp_all add: two_line_narrow_widget_def run_defs)
  from draw_bar [OF this, of get_value] show ?thesis
    by (simp add: two_line_narrow_widget_def run_defs)
qed

end
